theory Spec2Isabelle
  imports Main
begin

section \<open>JavaScript strings and values\<close>

text \<open>
  The wire-transfer form (\<^verbatim>\<open>MEM_WIRE_TRANSFER.js\<close>) works on JavaScript strings. A
  JavaScript string is a sequence of UTF-16 code units; a code unit is modelled by its
  number, so every string of the language is a list of numbers below 65536. The theorems
  below quantify over all lists, which covers every string.
\<close>

type_synonym code_unit = nat
type_synonym jsstring = "code_unit list"

definition js :: "string \<Rightarrow> jsstring" where
  "js s = map of_char s"

text \<open>
  The values the utilities receive from the form: a string, \<^verbatim>\<open>null\<close> or
  \<^verbatim>\<open>undefined\<close>.
\<close>

datatype jsvalue = JNull | JUndefined | JString jsstring

text \<open>\<^verbatim>\<open>!!v\<close>: of these values only the non-empty strings are truthy.\<close>

fun truthy :: "jsvalue \<Rightarrow> bool" where
  "truthy JNull = False"
| "truthy JUndefined = False"
| "truthy (JString s) = (s \<noteq> [])"

text \<open>\<^verbatim>\<open>'' + v\<close>, the string conversion.\<close>

fun ToString :: "jsvalue \<Rightarrow> jsstring" where
  "ToString JNull = js ''null''"
| "ToString JUndefined = js ''undefined''"
| "ToString (JString s) = s"

subsection \<open>Character classes and anchored patterns\<close>

text \<open>
  \<^verbatim>\<open>\d\<close> is the ASCII digits; \<^verbatim>\<open>\s\<close> is the white space and line
  terminators of ECMAScript.
\<close>

definition is_digit :: "code_unit \<Rightarrow> bool" where
  "is_digit c = (48 \<le> c \<and> c \<le> 57)"

definition is_space :: "code_unit \<Rightarrow> bool" where
  "is_space c =
     (c = 9 \<or> c = 10 \<or> c = 11 \<or> c = 12 \<or> c = 13 \<or> c = 32 \<or> c = 160 \<or> c = 5760
      \<or> (8192 \<le> c \<and> c \<le> 8202) \<or> c = 8232 \<or> c = 8233 \<or> c = 8239 \<or> c = 8287
      \<or> c = 12288 \<or> c = 65279)"

text \<open>
  Both regular expressions of the file are a fixed sequence of one-character classes
  between \<^verbatim>\<open>^\<close> and \<^verbatim>\<open>$\<close> (no \<^verbatim>\<open>m\<close> flag): they match exactly the
  strings of the pattern's length whose characters are in the classes, position by
  position.
\<close>

datatype char_class = Digit | Space | Lit code_unit

fun class_matches :: "char_class \<Rightarrow> code_unit \<Rightarrow> bool" where
  "class_matches Digit c = is_digit c"
| "class_matches Space c = is_space c"
| "class_matches (Lit l) c = (c = l)"

definition regex_test :: "char_class list \<Rightarrow> jsstring \<Rightarrow> bool" where
  "regex_test pat s = list_all2 class_matches pat s"

text \<open>\<^verbatim>\<open>s.replace(/\D/g, '')\<close> removes every code unit that is not a digit.\<close>

definition strip_non_digits :: "jsstring \<Rightarrow> jsstring" where
  "strip_non_digits s = filter is_digit s"

section \<open>CONFIG\<close>

definition ROUTING_LENGTH :: nat where
  "ROUTING_LENGTH = 9"

text \<open>\<^verbatim>\<open>PHONE_REGEX: /^\(\d{3}\)\s\d{3}-\d{4}$/\<close>\<close>

definition PHONE_REGEX :: "char_class list" where
  "PHONE_REGEX =
     [Lit (of_char CHR ''('')] @ replicate 3 Digit @ [Lit (of_char CHR '')''), Space]
     @ replicate 3 Digit @ [Lit (of_char CHR ''-'')] @ replicate 4 Digit"

section \<open>Utilities.validateRoutingNumber\<close>

text \<open>
  \<^verbatim>\<open>parseInt(cleaned[i])\<close> on a one-character string: the digit's value, or
  \<^verbatim>\<open>NaN\<close> (here \<open>None\<close>) when the character is no digit.
\<close>

definition parseInt_unit :: "code_unit \<Rightarrow> nat option" where
  "parseInt_unit c = (if is_digit c then Some (c - 48) else None)"

text \<open>
  \<^verbatim>\<open>sum += digit * w\<close> on JavaScript numbers: \<^verbatim>\<open>NaN\<close> absorbs. The sums of the
  loop stay far below \<open>2^53\<close>, where the arithmetic of doubles is exact.
\<close>

definition add_scaled :: "nat option \<Rightarrow> nat option \<Rightarrow> nat \<Rightarrow> nat option" where
  "add_scaled sum_acc digit w =
     (case sum_acc of None \<Rightarrow> None
      | Some s \<Rightarrow> (case digit of None \<Rightarrow> None | Some d \<Rightarrow> Some (s + d * w)))"

text \<open>
  The loop \<^verbatim>\<open>for (let i = 0; i < cleaned.length; i++)\<close>, from index \<open>i\<close> with the sum
  so far.
\<close>

function checksum_loop :: "jsstring \<Rightarrow> nat \<Rightarrow> nat option \<Rightarrow> nat option" where
  "checksum_loop cleaned i sum_acc =
     (if i < length cleaned then
        (let digit = parseInt_unit (cleaned ! i) in
         checksum_loop cleaned (i + 1)
           (if i mod 3 = 0 then add_scaled sum_acc digit 3
            else if i mod 3 = 1 then add_scaled sum_acc digit 7
            else add_scaled sum_acc digit 1))
      else sum_acc)"
  by pat_completeness auto
termination
  by (relation "measure (\<lambda>(cleaned, i, sum_acc). length cleaned - i)") auto

declare checksum_loop.simps [simp del]

text \<open>
  \<^verbatim>\<open>return sum !== 0 && sum % 10 === 0\<close>; with \<^verbatim>\<open>NaN\<close> the second test is false.
\<close>

definition checksum_ok :: "nat option \<Rightarrow> bool" where
  "checksum_ok sum_acc = (case sum_acc of None \<Rightarrow> False | Some n \<Rightarrow> n \<noteq> 0 \<and> n mod 10 = 0)"

definition validateRoutingNumber :: "jsvalue \<Rightarrow> bool" where
  "validateRoutingNumber routingNumber =
     (if \<not> truthy routingNumber then False
      else
        (let cleaned = strip_non_digits (ToString routingNumber) in
         if length cleaned \<noteq> ROUTING_LENGTH then False
         else checksum_ok (checksum_loop cleaned 0 (Some 0))))"

section \<open>Utilities.formatPhoneNumber and FormValidator.validatePhoneField\<close>

text \<open>
  \<^verbatim>\<open>cleaned.match(/^(\d{3})(\d{3})(\d{4})$/)\<close>: the three capture groups when the
  whole string is ten digits, \<^verbatim>\<open>null\<close> (here \<open>None\<close>) otherwise.
\<close>

definition match_3_3_4 :: "jsstring \<Rightarrow> (jsstring \<times> jsstring \<times> jsstring) option" where
  "match_3_3_4 s =
     (if regex_test (replicate 3 Digit @ replicate 3 Digit @ replicate 4 Digit) s
      then Some (take 3 s, take 3 (drop 3 s), take 4 (drop 6 s)) else None)"

text \<open>
  None of the operations in the \<^verbatim>\<open>try\<close> block throws on these values, so the
  \<^verbatim>\<open>catch\<close> branch has no counterpart.
\<close>

definition formatPhoneNumber :: "jsvalue \<Rightarrow> jsvalue" where
  "formatPhoneNumber phoneNumber =
     (if \<not> truthy phoneNumber then JString []
      else
        (let cleaned = strip_non_digits (ToString phoneNumber) in
         case match_3_3_4 cleaned of
           Some (m1, m2, m3) \<Rightarrow> JString (js ''('' @ m1 @ js '') '' @ m2 @ js ''-'' @ m3)
         | None \<Rightarrow> phoneNumber))"

text \<open>
  \<^verbatim>\<open>FormValidator.validateField\<close> reads the value of the field a selector names,
  applies the validation function and shows or hides the error message. The model takes
  the field's value in place of the selector and returns \<^verbatim>\<open>isValid\<close>.
\<close>

definition validateField :: "jsvalue \<Rightarrow> (jsvalue \<Rightarrow> bool) \<Rightarrow> bool" where
  "validateField val validationFn = validationFn val"

definition validatePhoneField :: "jsvalue \<Rightarrow> bool" where
  "validatePhoneField val =
     validateField val (\<lambda>v. truthy v \<and> regex_test PHONE_REGEX (ToString v))"

section \<open>Account types\<close>












section \<open>The PDF watcher: template matching and delivery\<close>

text \<open>
  The PDF watcher service is present in the repository through its README files; its
  Python modules (\<^verbatim>\<open>pdf_handler.py\<close>, \<^verbatim>\<open>email_utils.py\<close>) are not among the
  sources. The definitions of this section follow the specification's sections 3, 4.3, 4.6,
  4.8 and 9.
\<close>

text \<open>Modelled from the spec: the states of a Job (section 4.3); the worker's code is missing.\<close>

datatype job_state =
  Detected | Staged | Resolved | Matched | Dispatched | Cleaned
  | DroppedDuplicate | DroppedUnmatched | FailedRetryable nat | FailedTerminal

text \<open>Modelled from the spec: a Template (section 3), loaded once from configuration.\<close>

record template =
  pattern :: string
  recipients :: "string list"
  subject_format :: string
  body_format :: string

text \<open>Modelled from the spec: a NotificationEnvelope (section 3).\<close>

record envelope =
  to :: "string list"
  cc :: "string list"
  subject :: string
  body :: string
  attachment_path :: string
  attachment_size :: nat

text \<open>
  Modelled from the spec: the mails the dispatcher hands over, the Job's notification or
  the separate error notification to the operator distribution list (section 4.8).
\<close>

datatype mail = Notification envelope | OperatorError "string list" envelope

text \<open>
  Modelled from the spec: what a Job leaves behind: its last state, the mails sent for it,
  the number of SMTP attempts and the delays waited between them.
\<close>

record outcome =
  state :: job_state
  mails :: "mail list"
  attempts :: nat
  waits :: "nat list"

text \<open>
  Modelled from the spec: TemplateMatcher (section 4.6), whose code is missing. The
  templates are tried in declaration order and the first match wins, with its capture
  groups. The regular expression engine is the parameter \<open>rx\<close>: \<open>rx p f\<close> is the list
  of capture groups when the pattern \<open>p\<close> matches the file name \<open>f\<close>, and \<open>None\<close>
  when it does not.
\<close>

fun match_template ::
  "(string \<Rightarrow> string \<Rightarrow> string list option) \<Rightarrow> template list \<Rightarrow> string
    \<Rightarrow> (template \<times> string list) option" where
  "match_template rx [] filename = None"
| "match_template rx (t # ts) filename =
     (case rx (pattern t) filename of
        Some captures \<Rightarrow> Some (t, captures)
      | None \<Rightarrow> match_template rx ts filename)"

text \<open>
  Modelled from the spec: the worker's pipeline from TemplateMatcher on (sections 4.3 and
  4.6), whose code is missing. A file name that no template matches ends the Job as
  \<open>DroppedUnmatched\<close>; otherwise the stages after matching (RecipientResolver,
  NotificationDispatcher, cleanup), the parameter \<open>later_stages\<close>, run on the selected
  template and its captures.
\<close>

definition process_job ::
  "(string \<Rightarrow> string \<Rightarrow> string list option) \<Rightarrow> template list
    \<Rightarrow> (template \<Rightarrow> string list \<Rightarrow> outcome) \<Rightarrow> string \<Rightarrow> outcome" where
  "process_job rx templates later_stages filename =
     (case match_template rx templates filename of
        None \<Rightarrow> \<lparr>state = DroppedUnmatched, mails = [], attempts = 0, waits = []\<rparr>
      | Some (t, captures) \<Rightarrow> later_stages t captures)"

text \<open>Modelled from the spec: the retry count and backoff base of the configuration (section 6).\<close>

record retry_policy =
  retry_count :: nat
  backoff_base :: nat

text \<open>
  Modelled from the spec: the backoff policy function, attempt count to delay (section 9),
  with a doubling delay (section 4.8): the wait after the \<open>n\<close>-th failed attempt.
\<close>

definition backoff_delay :: "retry_policy \<Rightarrow> nat \<Rightarrow> nat" where
  "backoff_delay p n = backoff_base p * 2 ^ (n - 1)"

record send_result =
  delivered :: bool
  attempts_made :: nat
  waited :: "nat list"

text \<open>
  Modelled from the spec: the retry loop of NotificationDispatcher (section 4.8), whose
  code is missing. The transport is the parameter \<open>smtp\<close>: \<open>smtp k\<close> says whether the
  \<open>k\<close>-th attempt (counted from 1) succeeds. \<open>left\<close> attempts remain and \<open>n\<close> were
  made; a failed attempt is followed by the backoff delay when another attempt remains.
\<close>

fun retry_loop :: "retry_policy \<Rightarrow> (nat \<Rightarrow> bool) \<Rightarrow> nat \<Rightarrow> nat \<Rightarrow> send_result" where
  "retry_loop p smtp 0 n = \<lparr>delivered = False, attempts_made = n, waited = []\<rparr>"
| "retry_loop p smtp (Suc left) n =
     (if smtp (Suc n) then \<lparr>delivered = True, attempts_made = Suc n, waited = []\<rparr>
      else if left = 0 then \<lparr>delivered = False, attempts_made = Suc n, waited = []\<rparr>
      else (let r = retry_loop p smtp left (Suc n)
            in r\<lparr>waited := backoff_delay p (Suc n) # waited r\<rparr>))"

text \<open>
  Modelled from the spec: delivery by NotificationDispatcher of an envelope that passed the
  size validation (section 4.8), whose code is missing. Success ends the Job as
  \<open>Dispatched\<close> with the notification sent; exhaustion marks it \<open>FailedTerminal\<close> and
  routes an error notification to the operator list. The rate limiter only delays sends
  and is left out.
\<close>

definition deliver ::
  "retry_policy \<Rightarrow> string list \<Rightarrow> (nat \<Rightarrow> bool) \<Rightarrow> envelope \<Rightarrow> outcome" where
  "deliver p operators smtp env =
     (let r = retry_loop p smtp (retry_count p) 0 in
      if delivered r
      then \<lparr>state = Dispatched, mails = [Notification env],
            attempts = attempts_made r, waits = waited r\<rparr>
      else \<lparr>state = FailedTerminal, mails = [OperatorError operators env],
            attempts = attempts_made r, waits = waited r\<rparr>)"

section \<open>Statements to compare with\<close>

text \<open>
  The statement to compare with: the digits of a string, in order, and the weighted sum
  of nine of them with the weights 3, 7, 1 repeating.
\<close>

definition digits_of :: "jsstring \<Rightarrow> nat list" where
  "digits_of s = map (\<lambda>c. c - 48) (filter is_digit s)"

definition weighted_checksum :: "nat list \<Rightarrow> nat" where
  "weighted_checksum d =
     3 * d ! 0 + 7 * d ! 1 + d ! 2 + 3 * d ! 3 + 7 * d ! 4 + d ! 5 + 3 * d ! 6 + 7 * d ! 7 + d ! 8"

section \<open>Properties of the routing number check\<close>

lemma nine_elements:
  assumes "length xs = 9"
  obtains c0 c1 c2 c3 c4 c5 c6 c7 c8 where "xs = [c0, c1, c2, c3, c4, c5, c6, c7, c8]"
proof -
  from assms have "xs = [xs ! 0, xs ! 1, xs ! 2, xs ! 3, xs ! 4, xs ! 5, xs ! 6, xs ! 7, xs ! 8]"
    by (simp add: list_eq_iff_nth_eq nth_Cons' numeral_eq_Suc less_Suc_eq)
  then show thesis by (rule that)
qed

lemma checksum_loop_nine:
  assumes "list_all is_digit [c0, c1, c2, c3, c4, c5, c6, c7, c8]"
  shows "checksum_loop [c0, c1, c2, c3, c4, c5, c6, c7, c8] 0 (Some 0)
         = Some (weighted_checksum (map (\<lambda>c. c - 48) [c0, c1, c2, c3, c4, c5, c6, c7, c8]))"
  using assms
  by (simp add: checksum_loop.simps [of "[c0, c1, c2, c3, c4, c5, c6, c7, c8]"]
      parseInt_unit_def add_scaled_def weighted_checksum_def)

text \<open>
  C8. \<^verbatim>\<open>validateRoutingNumber(s)\<close> is true exactly when \<open>s\<close>, with every non-digit
  removed, is nine digits whose weighted checksum (weights 3, 7, 1 repeating) is not zero
  and is divisible by 10; on \<^verbatim>\<open>null\<close>, \<^verbatim>\<open>undefined\<close> and the empty string it is
  false.
\<close>

theorem validateRoutingNumber_iff:
  "validateRoutingNumber (JString s) =
     (length (digits_of s) = 9 \<and> weighted_checksum (digits_of s) \<noteq> 0
      \<and> weighted_checksum (digits_of s) mod 10 = 0)
   \<and> validateRoutingNumber JNull = False
   \<and> validateRoutingNumber JUndefined = False
   \<and> validateRoutingNumber (JString []) = False"
proof -
  have empty: "validateRoutingNumber (JString []) = False"
    and null: "validateRoutingNumber JNull = False"
    and undef: "validateRoutingNumber JUndefined = False"
    by (simp_all add: validateRoutingNumber_def)
  have main: "validateRoutingNumber (JString s) =
     (length (digits_of s) = 9 \<and> weighted_checksum (digits_of s) \<noteq> 0
      \<and> weighted_checksum (digits_of s) mod 10 = 0)"
  proof (cases "length (filter is_digit s) = 9")
    case False
    then show ?thesis
      by (simp add: validateRoutingNumber_def strip_non_digits_def ROUTING_LENGTH_def
          digits_of_def)
  next
    case True
    then obtain c0 c1 c2 c3 c4 c5 c6 c7 c8
      where cs: "filter is_digit s = [c0, c1, c2, c3, c4, c5, c6, c7, c8]"
      by (rule nine_elements)
    have "list_all is_digit (filter is_digit s)"
      by (simp add: list_all_iff)
    then have digits: "list_all is_digit [c0, c1, c2, c3, c4, c5, c6, c7, c8]"
      by (simp only: cs)
    have "s \<noteq> []"
      using True by auto
    then show ?thesis
      using True
      by (simp add: validateRoutingNumber_def strip_non_digits_def ROUTING_LENGTH_def
          digits_of_def cs checksum_loop_nine [OF digits] checksum_ok_def)
  qed
  from main null undef empty show ?thesis by simp
qed

text \<open>
  The check on concrete inputs: a routing number in use, the same with separators, the
  all-zero number (checksum 0), a number whose checksum is 159, and eight digits.
\<close>

lemma validateRoutingNumber_examples:
  "validateRoutingNumber (JString (js ''021000021''))
   \<and> validateRoutingNumber (JString (js ''0210-0002 1''))
   \<and> \<not> validateRoutingNumber (JString (js ''000000000''))
   \<and> \<not> validateRoutingNumber (JString (js ''123456789''))
   \<and> \<not> validateRoutingNumber (JString (js ''02100002''))"
  by code_simp

section \<open>Properties of the phone number format\<close>

lemma regex_test_digits:
  "regex_test (replicate n Digit) s = (length s = n \<and> list_all is_digit s)"
  by (auto simp: regex_test_def list_all2_conv_all_nth list_all_length)

lemma match_3_3_4_stripped:
  "match_3_3_4 (filter is_digit s) =
     (if length (filter is_digit s) = 10
      then Some (take 3 (filter is_digit s), take 3 (drop 3 (filter is_digit s)),
                 take 4 (drop 6 (filter is_digit s)))
      else None)"
proof -
  have "replicate 3 Digit @ replicate 3 Digit @ replicate 4 Digit = replicate 10 Digit"
    by (simp add: replicate_add [symmetric])
  then show ?thesis
    by (simp add: match_3_3_4_def regex_test_digits list_all_iff)
qed

lemma replicate_3: "replicate 3 x = [x, x, x]"
  by (simp add: numeral_eq_Suc)

lemma replicate_4: "replicate 4 x = [x, x, x, x]"
  by (simp add: numeral_eq_Suc)

lemma PHONE_REGEX_classes:
  "PHONE_REGEX =
     [Lit 40, Digit, Digit, Digit, Lit 41, Space, Digit, Digit, Digit, Lit 45,
      Digit, Digit, Digit, Digit]"
  by (simp add: PHONE_REGEX_def replicate_3 replicate_4)

lemma phone_regex_formatted:
  assumes "length d = 10" and "list_all is_digit d"
  shows "regex_test PHONE_REGEX
           (js ''('' @ take 3 d @ js '') '' @ take 3 (drop 3 d) @ js ''-'' @ take 4 (drop 6 d))"
proof -
  from assms(1) obtain a b c e f g h i j k where d: "d = [a, b, c, e, f, g, h, i, j, k]"
    by (auto simp: length_Suc_conv numeral_eq_Suc)
  show ?thesis
    using assms(2) unfolding d
    by (simp add: regex_test_def PHONE_REGEX_classes js_def is_space_def)
qed

text \<open>
  C9. When the input with its non-digits removed is exactly ten digits \<open>d\<close>,
  \<^verbatim>\<open>formatPhoneNumber\<close> returns \<^verbatim>\<open>(ddd) ddd-dddd\<close> built from them, a string that
  \<^verbatim>\<open>PHONE_REGEX\<close> matches and \<^verbatim>\<open>validatePhoneField\<close> accepts; any other non-empty
  string is returned unchanged; \<^verbatim>\<open>null\<close>, \<^verbatim>\<open>undefined\<close> and the empty string give
  the empty string.
\<close>

theorem formatPhoneNumber_spec:
  "(length (strip_non_digits s) = 10 \<longrightarrow>
      formatPhoneNumber (JString s) =
        JString (js ''('' @ take 3 (strip_non_digits s) @ js '') ''
                 @ take 3 (drop 3 (strip_non_digits s)) @ js ''-''
                 @ take 4 (drop 6 (strip_non_digits s)))
      \<and> regex_test PHONE_REGEX (ToString (formatPhoneNumber (JString s)))
      \<and> validatePhoneField (formatPhoneNumber (JString s)))
   \<and> (s \<noteq> [] \<and> length (strip_non_digits s) \<noteq> 10 \<longrightarrow>
        formatPhoneNumber (JString s) = JString s)
   \<and> formatPhoneNumber JNull = JString []
   \<and> formatPhoneNumber JUndefined = JString []
   \<and> formatPhoneNumber (JString []) = JString []"
proof -
  have falsy: "formatPhoneNumber JNull = JString []" "formatPhoneNumber JUndefined = JString []"
    "formatPhoneNumber (JString []) = JString []"
    by (simp_all add: formatPhoneNumber_def)
  have other: "formatPhoneNumber (JString s) = JString s"
    if "s \<noteq> []" and "length (strip_non_digits s) \<noteq> 10"
    using that by (simp add: formatPhoneNumber_def strip_non_digits_def match_3_3_4_stripped)
  have ten: "formatPhoneNumber (JString s) =
        JString (js ''('' @ take 3 (strip_non_digits s) @ js '') ''
                 @ take 3 (drop 3 (strip_non_digits s)) @ js ''-''
                 @ take 4 (drop 6 (strip_non_digits s)))
      \<and> regex_test PHONE_REGEX (ToString (formatPhoneNumber (JString s)))
      \<and> validatePhoneField (formatPhoneNumber (JString s))"
    if len: "length (strip_non_digits s) = 10"
  proof -
    from len have "s \<noteq> []"
      by (auto simp: strip_non_digits_def)
    with len have eq: "formatPhoneNumber (JString s) =
        JString (js ''('' @ take 3 (strip_non_digits s) @ js '') ''
                 @ take 3 (drop 3 (strip_non_digits s)) @ js ''-''
                 @ take 4 (drop 6 (strip_non_digits s)))"
      by (simp add: formatPhoneNumber_def strip_non_digits_def match_3_3_4_stripped)
    have "list_all is_digit (strip_non_digits s)"
      by (simp add: strip_non_digits_def list_all_iff)
    with len have re: "regex_test PHONE_REGEX
        (js ''('' @ take 3 (strip_non_digits s) @ js '') ''
         @ take 3 (drop 3 (strip_non_digits s)) @ js ''-''
         @ take 4 (drop 6 (strip_non_digits s)))"
      by (rule phone_regex_formatted)
    from eq re show ?thesis
      by (simp add: validatePhoneField_def validateField_def js_def)
  qed
  from falsy other ten show ?thesis by blast
qed

theorem formatPhoneNumber_spec_witness:
  "formatPhoneNumber (JString (js ''555.123.4567'')) = JString (js ''(555) 123-4567'')
   \<and> validatePhoneField (formatPhoneNumber (JString (js ''555.123.4567'')))
   \<and> formatPhoneNumber (JString (js ''123-4567'')) = JString (js ''123-4567'')"
proof -
  have ten: "length (strip_non_digits (js ''555.123.4567'')) = 10"
    by (simp add: strip_non_digits_def js_def is_digit_def)
  have seven: "js ''123-4567'' \<noteq> [] \<and> length (strip_non_digits (js ''123-4567'')) \<noteq> 10"
    by (simp add: strip_non_digits_def js_def is_digit_def)
  have digits: "strip_non_digits (js ''555.123.4567'') = js ''5551234567''"
    by (simp add: strip_non_digits_def js_def is_digit_def)
  from formatPhoneNumber_spec [of "js ''555.123.4567''"] ten
  have a: "formatPhoneNumber (JString (js ''555.123.4567'')) =
        JString (js ''('' @ take 3 (strip_non_digits (js ''555.123.4567'')) @ js '') ''
                 @ take 3 (drop 3 (strip_non_digits (js ''555.123.4567''))) @ js ''-''
                 @ take 4 (drop 6 (strip_non_digits (js ''555.123.4567''))))"
    and b: "validatePhoneField (formatPhoneNumber (JString (js ''555.123.4567'')))"
    by blast+
  from formatPhoneNumber_spec [of "js ''123-4567''"] seven
  have c: "formatPhoneNumber (JString (js ''123-4567'')) = JString (js ''123-4567'')"
    by blast
  from a have "formatPhoneNumber (JString (js ''555.123.4567'')) = JString (js ''(555) 123-4567'')"
    by (simp add: digits) (simp add: js_def)
  with b c show ?thesis by simp
qed

lemma formatPhoneNumber_examples:
  "formatPhoneNumber (JString (js ''5551234567'')) = JString (js ''(555) 123-4567'')
   \<and> formatPhoneNumber (JString (js ''1-555-123-4567'')) = JString (js ''1-555-123-4567'')"
  by code_simp

section \<open>Properties of the account type tables\<close>











section \<open>Properties of template matching\<close>

lemma match_template_None:
  "(match_template rx ts f = None) = (\<forall>t \<in> set ts. rx (pattern t) f = None)"
  by (induction ts) (auto split: option.splits)

lemma match_template_Some:
  "(match_template rx ts f = Some (t, caps)) =
     (\<exists>i < length ts. ts ! i = t \<and> rx (pattern t) f = Some caps
        \<and> (\<forall>j < i. rx (pattern (ts ! j)) f = None))"
proof (induction ts)
  case Nil
  then show ?case by simp
next
  case (Cons a ts)
  show ?case
  proof (cases "rx (pattern a) f")
    case None
    have "(\<exists>i < length (a # ts). (a # ts) ! i = t \<and> rx (pattern t) f = Some caps
            \<and> (\<forall>j < i. rx (pattern ((a # ts) ! j)) f = None))
          = (\<exists>i < length ts. ts ! i = t \<and> rx (pattern t) f = Some caps
            \<and> (\<forall>j < i. rx (pattern (ts ! j)) f = None))" (is "?L = ?R")
    proof
      assume ?L
      then obtain i where i: "i < length (a # ts)" "(a # ts) ! i = t" "rx (pattern t) f = Some caps"
        "\<forall>j < i. rx (pattern ((a # ts) ! j)) f = None" by blast
      with None obtain k where k: "i = Suc k" by (cases i) auto
      have "\<forall>j < k. rx (pattern (ts ! j)) f = None"
      proof (intro allI impI)
        fix j assume "j < k"
        then have "Suc j < i" using k by simp
        with i(4) have "rx (pattern ((a # ts) ! Suc j)) f = None" by blast
        then show "rx (pattern (ts ! j)) f = None" by simp
      qed
      with i k show ?R by auto
    next
      assume ?R
      then obtain i where i: "i < length ts" "ts ! i = t" "rx (pattern t) f = Some caps"
        "\<forall>j < i. rx (pattern (ts ! j)) f = None" by blast
      have "\<forall>j < Suc i. rx (pattern ((a # ts) ! j)) f = None"
        using None i(4) by (auto simp: less_Suc_eq_0_disj)
      with i show ?L by (intro exI [of _ "Suc i"]) auto
    qed
    with None Cons show ?thesis by simp
  next
    case (Some c)
    have "(\<exists>i < length (a # ts). (a # ts) ! i = t \<and> rx (pattern t) f = Some caps
            \<and> (\<forall>j < i. rx (pattern ((a # ts) ! j)) f = None))
          = (a = t \<and> c = caps)" (is "?L = ?R")
    proof
      assume ?L
      then obtain i where i: "i < length (a # ts)" "(a # ts) ! i = t" "rx (pattern t) f = Some caps"
        "\<forall>j < i. rx (pattern ((a # ts) ! j)) f = None" by blast
      have "i = 0"
      proof (rule ccontr)
        assume "i \<noteq> 0"
        then have "0 < i" by simp
        with i(4) have "rx (pattern ((a # ts) ! 0)) f = None" by blast
        with Some show False by simp
      qed
      with i Some show ?R by simp
    next
      assume ?R
      with Some show ?L by (intro exI [of _ 0]) auto
    qed
    with Some show ?thesis by auto
  qed
qed

text \<open>
  C2. For every file name and every template list, TemplateMatcher selects the first
  template, in declaration order, whose pattern matches, with that match's capture groups,
  and the later stages run on that template only. When no template matches, the Job ends
  as \<open>DroppedUnmatched\<close>, the later stages are not reached and no mail is sent.
\<close>

theorem first_match_wins:
  "(\<forall>t caps. (match_template rx ts f = Some (t, caps)) =
      (\<exists>i < length ts. ts ! i = t \<and> rx (pattern t) f = Some caps
         \<and> (\<forall>j < i. rx (pattern (ts ! j)) f = None)))
   \<and> ((match_template rx ts f = None) = (\<forall>t \<in> set ts. rx (pattern t) f = None))
   \<and> (\<forall>t caps. match_template rx ts f = Some (t, caps) \<longrightarrow>
        process_job rx ts later_stages f = later_stages t caps)
   \<and> ((\<forall>t \<in> set ts. rx (pattern t) f = None) \<longrightarrow>
        process_job rx ts later_stages f
        = \<lparr>state = DroppedUnmatched, mails = [], attempts = 0, waits = []\<rparr>)"
proof -
  have dropped: "process_job rx ts later_stages f
        = \<lparr>state = DroppedUnmatched, mails = [], attempts = 0, waits = []\<rparr>"
    if "\<forall>t \<in> set ts. rx (pattern t) f = None"
  proof -
    from that have "match_template rx ts f = None"
      by (simp only: match_template_None)
    then show ?thesis
      by (simp add: process_job_def)
  qed
  have passed: "process_job rx ts later_stages f = later_stages t caps"
    if "match_template rx ts f = Some (t, caps)" for t caps
    using that by (simp add: process_job_def)
  from match_template_Some [of rx ts f] match_template_None [of rx ts f] dropped passed
  show ?thesis by blast
qed

theorem first_match_wins_witness:
  "match_template (\<lambda>p f. if take (length p) f = p then Some [drop (length p) f] else None)
     [\<lparr>pattern = ''WIRE'', recipients = [''wires''], subject_format = ''Wire'', body_format = ''Sent''\<rparr>,
      \<lparr>pattern = ''LIMIT'', recipients = [''cards''], subject_format = ''Limit'', body_format = ''Sent''\<rparr>,
      \<lparr>pattern = ''LIM'', recipients = [''other''], subject_format = ''Other'', body_format = ''Sent''\<rparr>]
     ''LIMIT_42.pdf''
   = Some (\<lparr>pattern = ''LIMIT'', recipients = [''cards''], subject_format = ''Limit'',
            body_format = ''Sent''\<rparr>, [''_42.pdf''])
   \<and> process_job (\<lambda>p f. if take (length p) f = p then Some [drop (length p) f] else None)
     [\<lparr>pattern = ''WIRE'', recipients = [''wires''], subject_format = ''Wire'', body_format = ''Sent''\<rparr>,
      \<lparr>pattern = ''LIMIT'', recipients = [''cards''], subject_format = ''Limit'', body_format = ''Sent''\<rparr>,
      \<lparr>pattern = ''LIM'', recipients = [''other''], subject_format = ''Other'', body_format = ''Sent''\<rparr>]
     (\<lambda>t caps. \<lparr>state = Dispatched, mails = [], attempts = 1, waits = []\<rparr>)
     ''memo.pdf''
   = \<lparr>state = DroppedUnmatched, mails = [], attempts = 0, waits = []\<rparr>"
  (is "match_template ?rx ?ts ?f = Some (?t, ?caps) \<and> process_job ?rx ?ts ?later ?g = ?dropped")
proof -
  have "\<exists>i < length ?ts. ?ts ! i = ?t \<and> ?rx (pattern ?t) ?f = Some ?caps
         \<and> (\<forall>j < i. ?rx (pattern (?ts ! j)) ?f = None)"
    by (intro exI [of _ 1]) simp
  with first_match_wins [of ?rx ?ts ?f ?later]
  have a: "match_template ?rx ?ts ?f = Some (?t, ?caps)"
    by blast
  have "\<forall>t \<in> set ?ts. ?rx (pattern t) ?g = None"
    by simp
  with first_match_wins [of ?rx ?ts ?g ?later]
  have b: "process_job ?rx ?ts ?later ?g = ?dropped"
    by blast
  from a b show ?thesis by (rule conjI)
qed

section \<open>Properties of delivery with retries\<close>

lemma retry_loop_bounds:
  "n \<le> attempts_made (retry_loop p smtp left n)
   \<and> attempts_made (retry_loop p smtp left n) \<le> n + left"
proof (induction left arbitrary: n)
  case 0
  show ?case by simp
next
  case (Suc left)
  from Suc [of "Suc n"] show ?case
    by (simp add: Let_def)
qed

lemma retry_loop_waited:
  "waited (retry_loop p smtp left n)
   = map (backoff_delay p) [Suc n ..< attempts_made (retry_loop p smtp left n)]"
proof (induction left arbitrary: n)
  case 0
  show ?case by simp
next
  case (Suc left)
  have "Suc n \<le> attempts_made (retry_loop p smtp left (Suc n))"
    using retry_loop_bounds [of "Suc n" p smtp left] by simp
  then have "[Suc n ..< attempts_made (retry_loop p smtp left (Suc n))]
     = Suc n # [Suc (Suc n) ..< attempts_made (retry_loop p smtp left (Suc n))]
     \<or> attempts_made (retry_loop p smtp left (Suc n)) = Suc n"
    by (auto simp: upt_conv_Cons)
  moreover have "left \<noteq> 0 \<Longrightarrow> \<not> smtp (Suc n) \<Longrightarrow>
      Suc (Suc n) \<le> attempts_made (retry_loop p smtp left (Suc n))"
    using retry_loop_bounds [of "Suc (Suc n)" p smtp "left - 1"]
    by (cases left) (simp_all add: Let_def)
  ultimately show ?case
    using Suc [of "Suc n"] by (auto simp: Let_def)
qed

lemma retry_loop_all_fail:
  "(\<And>k. n < k \<Longrightarrow> k \<le> n + left \<Longrightarrow> \<not> smtp k) \<Longrightarrow>
   \<not> delivered (retry_loop p smtp left n) \<and> attempts_made (retry_loop p smtp left n) = n + left"
proof (induction left arbitrary: n)
  case 0
  show ?case by simp
next
  case (Suc left)
  have "\<not> smtp (Suc n)"
    using Suc.prems [of "Suc n"] by simp
  moreover have "\<not> delivered (retry_loop p smtp left (Suc n))
     \<and> attempts_made (retry_loop p smtp left (Suc n)) = Suc n + left"
    using Suc.prems by (intro Suc.IH) simp_all
  ultimately show ?case
    by (simp add: Let_def)
qed

lemma retry_loop_delivered:
  "delivered (retry_loop p smtp left n) \<Longrightarrow>
   smtp (attempts_made (retry_loop p smtp left n))
   \<and> (\<forall>k. n < k \<and> k < attempts_made (retry_loop p smtp left n) \<longrightarrow> \<not> smtp k)"
proof (induction left arbitrary: n)
  case 0
  then show ?case by simp
next
  case (Suc left)
  show ?case
  proof (cases "smtp (Suc n)")
    case True
    then show ?thesis by (auto simp: less_Suc_eq)
  next
    case False
    with Suc.prems have d: "delivered (retry_loop p smtp left (Suc n))" and "left \<noteq> 0"
      by (auto simp: Let_def split: if_splits)
    have same: "attempts_made (retry_loop p smtp (Suc left) n)
        = attempts_made (retry_loop p smtp left (Suc n))"
      using False \<open>left \<noteq> 0\<close> by (simp add: Let_def)
    have "\<not> smtp k" if "n < k" and "k < attempts_made (retry_loop p smtp left (Suc n))" for k
    proof (cases "k = Suc n")
      case True
      with False show ?thesis by simp
    next
      case False
      with that(1) have "Suc n < k" by simp
      with Suc.IH [OF d] that(2) show ?thesis by blast
    qed
    with Suc.IH [OF d] same show ?thesis by simp
  qed
qed

lemma retry_third_attempt:
  assumes "\<not> smtp 1" "\<not> smtp 2" "smtp 3" "3 \<le> left"
  shows "delivered (retry_loop p smtp left 0) \<and> attempts_made (retry_loop p smtp left 0) = 3"
proof -
  from assms(4) obtain m where "left = Suc (Suc (Suc m))"
    by (metis Suc_le_D numeral_3_eq_3 Suc_le_mono)
  with assms(1-3) show ?thesis
    by (simp add: Let_def numeral_2_eq_2 numeral_3_eq_3)
qed

lemma retry_loop_not_delivered:
  "\<not> delivered (retry_loop p smtp left n) \<Longrightarrow> n < k \<Longrightarrow> k \<le> n + left \<Longrightarrow> \<not> smtp k"
proof (induction left arbitrary: n)
  case 0
  then show ?case by simp
next
  case (Suc left)
  from Suc.prems(1) have first: "\<not> smtp (Suc n)"
    by (auto split: if_splits)
  show ?case
  proof (cases "k = Suc n")
    case True
    with first show ?thesis by simp
  next
    case False
    with Suc.prems have k: "Suc n < k" "k \<le> Suc n + left" by simp_all
    then have "left \<noteq> 0" by auto
    with Suc.prems(1) first have "\<not> delivered (retry_loop p smtp left (Suc n))"
      by (simp add: Let_def)
    from Suc.IH [OF this k] show ?thesis .
  qed
qed

lemma backoff_doubles: "backoff_delay p (Suc (Suc n)) = 2 * backoff_delay p (Suc n)"
  by (simp add: backoff_delay_def)

text \<open>
  C5. Delivery makes at most the configured number of attempts, waiting after the
  \<open>n\<close>-th failed attempt the backoff base doubled \<open>n - 1\<close> times. When the first two
  attempts fail and the third succeeds, the notification is sent exactly once after 3
  attempts. When every configured attempt fails, the Job is \<open>FailedTerminal\<close> and
  exactly one operator error mail is sent. Every delivery ends in one of the two ways, so
  a failure is never silent.
\<close>

theorem deliver_retry_backoff:
  "attempts (deliver p ops smtp env) \<le> retry_count p
   \<and> waits (deliver p ops smtp env)
       = map (backoff_delay p) [1 ..< attempts (deliver p ops smtp env)]
   \<and> backoff_delay p 1 = backoff_base p
   \<and> backoff_delay p (Suc (Suc n)) = 2 * backoff_delay p (Suc n)
   \<and> (\<not> smtp 1 \<and> \<not> smtp 2 \<and> smtp 3 \<and> 3 \<le> retry_count p \<longrightarrow>
        deliver p ops smtp env
        = \<lparr>state = Dispatched, mails = [Notification env], attempts = 3,
           waits = [backoff_base p, 2 * backoff_base p]\<rparr>)
   \<and> ((\<forall>k. 1 \<le> k \<and> k \<le> retry_count p \<longrightarrow> \<not> smtp k) \<longrightarrow>
        state (deliver p ops smtp env) = FailedTerminal
        \<and> mails (deliver p ops smtp env) = [OperatorError ops env]
        \<and> attempts (deliver p ops smtp env) = retry_count p)
   \<and> (state (deliver p ops smtp env) = Dispatched
        \<and> mails (deliver p ops smtp env) = [Notification env]
        \<and> smtp (attempts (deliver p ops smtp env))
      \<or> state (deliver p ops smtp env) = FailedTerminal
        \<and> mails (deliver p ops smtp env) = [OperatorError ops env]
        \<and> (\<forall>k. 1 \<le> k \<and> k \<le> retry_count p \<longrightarrow> \<not> smtp k))"
proof -
  let ?r = "retry_loop p smtp (retry_count p) 0"
  have att: "attempts (deliver p ops smtp env) = attempts_made ?r"
    and wts: "waits (deliver p ops smtp env) = waited ?r"
    by (simp_all add: deliver_def Let_def)
  have bounded: "attempts (deliver p ops smtp env) \<le> retry_count p"
    using retry_loop_bounds [of 0 p smtp "retry_count p"] by (simp add: att)
  have delays: "waits (deliver p ops smtp env)
       = map (backoff_delay p) [1 ..< attempts (deliver p ops smtp env)]"
    using retry_loop_waited [of p smtp "retry_count p" 0] by (simp add: att wts)
  have base: "backoff_delay p 1 = backoff_base p"
    by (simp add: backoff_delay_def)
  have third: "deliver p ops smtp env
        = \<lparr>state = Dispatched, mails = [Notification env], attempts = 3,
           waits = [backoff_base p, 2 * backoff_base p]\<rparr>"
    if "\<not> smtp 1 \<and> \<not> smtp 2 \<and> smtp 3 \<and> 3 \<le> retry_count p"
  proof -
    from that have r: "delivered ?r" "attempts_made ?r = 3"
      using retry_third_attempt [of smtp "retry_count p" p] by simp_all
    have "[Suc 0 ..< 3] = [1, 2]"
      by (simp add: upt_rec numeral_3_eq_3)
    with retry_loop_waited [of p smtp "retry_count p" 0] r(2)
    have "waited ?r = [backoff_base p, 2 * backoff_base p]"
      by (simp add: backoff_delay_def)
    with r show ?thesis
      by (simp add: deliver_def Let_def)
  qed
  have exhausted: "state (deliver p ops smtp env) = FailedTerminal
        \<and> mails (deliver p ops smtp env) = [OperatorError ops env]
        \<and> attempts (deliver p ops smtp env) = retry_count p"
    if "\<forall>k. 1 \<le> k \<and> k \<le> retry_count p \<longrightarrow> \<not> smtp k"
  proof -
    from that have "\<not> delivered ?r \<and> attempts_made ?r = 0 + retry_count p"
      by (intro retry_loop_all_fail) simp_all
    then show ?thesis
      by (simp add: deliver_def Let_def)
  qed
  have loud: "state (deliver p ops smtp env) = Dispatched
        \<and> mails (deliver p ops smtp env) = [Notification env]
        \<and> smtp (attempts (deliver p ops smtp env))
      \<or> state (deliver p ops smtp env) = FailedTerminal
        \<and> mails (deliver p ops smtp env) = [OperatorError ops env]
        \<and> (\<forall>k. 1 \<le> k \<and> k \<le> retry_count p \<longrightarrow> \<not> smtp k)"
  proof (cases "delivered ?r")
    case True
    from retry_loop_delivered [OF True] have "smtp (attempts_made ?r)" by blast
    with True show ?thesis
      by (simp add: deliver_def Let_def)
  next
    case False
    have "\<forall>k. 1 \<le> k \<and> k \<le> retry_count p \<longrightarrow> \<not> smtp k"
      using retry_loop_not_delivered [OF False] by simp
    with False show ?thesis
      by (simp add: deliver_def Let_def)
  qed
  from bounded delays base backoff_doubles [of p n] third exhausted loud
  show ?thesis by blast
qed

theorem deliver_retry_backoff_witness:
  "deliver \<lparr>retry_count = 3, backoff_base = 5\<rparr> [''operators''] (\<lambda>k. k = 3)
     \<lparr>to = [''wires''], cc = [], subject = ''Wire'', body = ''Sent'',
      attachment_path = ''wire.pdf'', attachment_size = 1024\<rparr>
   = \<lparr>state = Dispatched,
      mails = [Notification \<lparr>to = [''wires''], cc = [], subject = ''Wire'', body = ''Sent'',
                attachment_path = ''wire.pdf'', attachment_size = 1024\<rparr>],
      attempts = 3, waits = [5, 10]\<rparr>
   \<and> mails (deliver \<lparr>retry_count = 3, backoff_base = 5\<rparr> [''operators''] (\<lambda>k. False)
     \<lparr>to = [''wires''], cc = [], subject = ''Wire'', body = ''Sent'',
      attachment_path = ''wire.pdf'', attachment_size = 1024\<rparr>)
   = [OperatorError [''operators''] \<lparr>to = [''wires''], cc = [], subject = ''Wire'', body = ''Sent'',
                attachment_path = ''wire.pdf'', attachment_size = 1024\<rparr>]
   \<and> state (deliver \<lparr>retry_count = 3, backoff_base = 5\<rparr> [''operators''] (\<lambda>k. False)
     \<lparr>to = [''wires''], cc = [], subject = ''Wire'', body = ''Sent'',
      attachment_path = ''wire.pdf'', attachment_size = 1024\<rparr>) = FailedTerminal
   \<and> attempts (deliver \<lparr>retry_count = 3, backoff_base = 5\<rparr> [''operators''] (\<lambda>k. False)
     \<lparr>to = [''wires''], cc = [], subject = ''Wire'', body = ''Sent'',
      attachment_path = ''wire.pdf'', attachment_size = 1024\<rparr>) = 3"
  (is "deliver ?p ?ops ?third ?env = ?sent \<and> mails (deliver ?p ?ops ?never ?env) = ?err
       \<and> state (deliver ?p ?ops ?never ?env) = FailedTerminal
       \<and> attempts (deliver ?p ?ops ?never ?env) = 3")
proof -
  have "\<not> ?third 1 \<and> \<not> ?third 2 \<and> ?third 3 \<and> 3 \<le> retry_count ?p"
    by simp
  with deliver_retry_backoff [of ?p ?ops ?third ?env 0]
  have a: "deliver ?p ?ops ?third ?env = ?sent"
    by simp
  have "\<forall>k. 1 \<le> k \<and> k \<le> retry_count ?p \<longrightarrow> \<not> ?never k"
    by simp
  with deliver_retry_backoff [of ?p ?ops ?never ?env 0]
  have b: "mails (deliver ?p ?ops ?never ?env) = ?err
       \<and> state (deliver ?p ?ops ?never ?env) = FailedTerminal
       \<and> attempts (deliver ?p ?ops ?never ?env) = 3"
    by simp
  from a b show ?thesis by simp
qed

end
